theory Spec2Isabelle
  imports Complex_Main
begin

section \<open>The store boundary setter (src/App.tsx)\<close>

text \<open>
  The component \<^verbatim>\<open>App\<close> keeps four pieces of React state: the store name, the
  store center, the polygon's points and the radius limit. Its handlers read the
  current state and call the setters; here each handler is a function from the
  state to the effects it performs (toasts, the console log) and the next state.
  Events are handled one at a time, each on the state the previous one left.
  JavaScript numbers are modelled as reals where the handlers only compare and
  copy them and NaN cannot occur: the number inputs never deliver NaN, and
  Leaflet refuses to build a coordinate from it. The distance Leaflet computes
  can be NaN, and has a type of its own.
\<close>

subsection \<open>Data\<close>

record Coordinates =
  lat :: real
  lng :: real

text \<open>Leaflet's \<^verbatim>\<open>LatLngTuple\<close>: the pair \<^verbatim>\<open>[lat, lng]\<close>.\<close>

type_synonym LatLngTuple = "real \<times> real"

definition defaultCoordinates :: Coordinates where
  "defaultCoordinates = \<lparr>lat = 51.4998819, lng = -0.0992492\<rparr>"

record AppState =
  storeName :: string
  center :: Coordinates
  polygonCoordinates :: "LatLngTuple list"
  radiusLimit :: real

text \<open>The values given to \<^verbatim>\<open>useState\<close>.\<close>

definition initialState :: AppState where
  "initialState =
     \<lparr>storeName = ''Terrys Cafe London'', center = defaultCoordinates,
      polygonCoordinates = [], radiusLimit = 5000\<rparr>"

text \<open>
  The toasts of the component, by their titles:
  \<^item> \<open>PolygonOnlyFivePoints\<close>: Polygon can only have 5 points. Click Undo Last Point to adjust.
  \<^item> \<open>PointOutsideBoundary\<close>: Point is outside the allowed boundary.
  \<^item> \<open>SetPolygonWithFivePoints\<close>: Set polygon with 5 points
  \<^item> \<open>StoreMustBeInsidePolygon\<close>: The store location must be inside the polygon
    boundary. Please adjust the points.
  \<^item> \<open>SuccessStoreSaved\<close>: Success! Store saved.
\<close>

datatype toast =
    PolygonOnlyFivePoints
  | PointOutsideBoundary
  | SetPolygonWithFivePoints
  | StoreMustBeInsidePolygon
  | SuccessStoreSaved

text \<open>One element of \<^verbatim>\<open>boundary\<close>, the array \<^verbatim>\<open>handleSavePolygon\<close> builds.\<close>

record BoundaryPoint =
  latitude :: real
  longitude :: real

datatype effect = Toast toast | ConsoleLog "BoundaryPoint list"

text \<open>A JavaScript exception leaving a handler.\<close>

datatype error = TypeError

text \<open>
  A JavaScript number that may be NaN, with the comparisons \<^verbatim>\<open><=\<close> and \<^verbatim>\<open>>\<close>
  against a number that is not: both are false of NaN.
\<close>

datatype jsnumber = Num real | NaN

definition js_le :: "jsnumber \<Rightarrow> real \<Rightarrow> bool" where
  "js_le d r = (case d of Num x \<Rightarrow> x \<le> r | NaN \<Rightarrow> False)"


subsection \<open>The Leaflet calls the component makes\<close>

text \<open>
  Modelled from the spec: Leaflet is a library, its code is not under src/. The
  component calls \<^verbatim>\<open>L.polygon(latlngs).getBounds().contains(latlng)\<close>; section 9
  of the spec describes this as the polygon's rectangular bounds. The definitions
  follow Leaflet's \<^verbatim>\<open>LatLngBounds\<close>: a bounds object starts with no corners
  (\<open>None\<close>), \<^verbatim>\<open>extend\<close> takes the first point as both corners and afterwards the
  minimum and maximum per coordinate, and \<^verbatim>\<open>contains\<close> compares the point with
  the south-west and north-east corners (reading a corner of a bounds object that
  has none is a TypeError).
\<close>

type_synonym LatLngBounds = "(Coordinates \<times> Coordinates) option"

definition toLatLng :: "LatLngTuple \<Rightarrow> Coordinates" where
  "toLatLng t = \<lparr>lat = fst t, lng = snd t\<rparr>"

definition LatLngBounds_extend :: "LatLngBounds \<Rightarrow> Coordinates \<Rightarrow> LatLngBounds" where
  "LatLngBounds_extend b p =
     (case b of
        None \<Rightarrow> Some (\<lparr>lat = lat p, lng = lng p\<rparr>, \<lparr>lat = lat p, lng = lng p\<rparr>)
      | Some (sw, ne) \<Rightarrow>
          Some (\<lparr>lat = min (lat p) (lat sw), lng = min (lng p) (lng sw)\<rparr>,
                \<lparr>lat = max (lat p) (lat ne), lng = max (lng p) (lng ne)\<rparr>))"

definition polygon_getBounds :: "LatLngTuple list \<Rightarrow> LatLngBounds" where
  "polygon_getBounds latlngs = foldl LatLngBounds_extend None (map toLatLng latlngs)"

definition LatLngBounds_contains :: "LatLngBounds \<Rightarrow> Coordinates \<Rightarrow> error + bool" where
  "LatLngBounds_contains b p =
     (case b of
        None \<Rightarrow> Inl TypeError
      | Some (sw, ne) \<Rightarrow>
          Inr (lat p \<ge> lat sw \<and> lat p \<le> lat ne \<and> lng p \<ge> lng sw \<and> lng p \<le> lng ne))"

text \<open>
  Modelled from the spec: \<^verbatim>\<open>L.latLng(a).distanceTo(b)\<close> is Leaflet's, not under
  src/. Section 4.1 of the spec describes it as the haversine formula on a
  spherical Earth; the formula and the radius 6371000 are those of Leaflet's
  \<^verbatim>\<open>Earth.distance\<close>, here over the reals instead of doubles. \<open>haversine_a\<close>
  is the sum \<^verbatim>\<open>a\<close> of that function on its own.
\<close>

definition atan2 :: "real \<Rightarrow> real \<Rightarrow> real" where
  "atan2 y x =
     (if x > 0 then arctan (y / x)
      else if x < 0 \<and> y \<ge> 0 then arctan (y / x) + pi
      else if x < 0 \<and> y < 0 then arctan (y / x) - pi
      else if y > 0 then pi / 2
      else if y < 0 then - (pi / 2)
      else 0)"

definition distanceTo :: "Coordinates \<Rightarrow> Coordinates \<Rightarrow> real" where
  "distanceTo latlng1 latlng2 =
     (let rad = pi / 180;
          lat1 = lat latlng1 * rad;
          lat2 = lat latlng2 * rad;
          sinDLat = sin ((lat latlng2 - lat latlng1) * rad / 2);
          sinDLon = sin ((lng latlng2 - lng latlng1) * rad / 2);
          a = sinDLat * sinDLat + cos lat1 * cos lat2 * sinDLon * sinDLon;
          c = 2 * atan2 (sqrt a) (sqrt (1 - a))
      in 6371000 * c)"


text \<open>
  Modelled from the spec: the same missing function, as the JavaScript number the
  click handler receives. Over the reals the sum \<^verbatim>\<open>a\<close> never exceeds 1. In doubles
  it can round to a value above 1 when the two points are antipodal;
  \<^verbatim>\<open>Math.sqrt(1 - a)\<close> is then NaN, and so is the distance. \<open>roundsAboveOne\<close>
  records one such pair: for the point (8, 180) and the point (-8, 0) the sine of
  the halved latitude difference is -0.13917310096006544, both cosines are
  0.9902680687415704, the sine of the halved longitude difference is -1, and
  their sum of products is 1.0000000000000002. \<open>distanceTo_doubles\<close> is NaN
  at the recorded pair and the value of the formula at every other pair. At the
  other pairs the examples use, a point with itself and (0, 180) with (0, 0),
  the sum is 0 and 1 in doubles as over the reals. The
  click handler below takes the distance function as a parameter, so what is
  proved about it holds for every distance function, whatever it returns and
  wherever it is NaN; \<open>distanceTo_doubles\<close> is used to run it on concrete clicks.
\<close>

definition roundsAboveOne :: "Coordinates \<Rightarrow> Coordinates \<Rightarrow> bool" where
  "roundsAboveOne latlng1 latlng2 =
     (latlng1 = \<lparr>lat = 8, lng = 180\<rparr> \<and> latlng2 = \<lparr>lat = -8, lng = 0\<rparr>)"

definition distanceTo_doubles :: "Coordinates \<Rightarrow> Coordinates \<Rightarrow> jsnumber" where
  "distanceTo_doubles latlng1 latlng2 =
     (if roundsAboveOne latlng1 latlng2 then NaN else Num (distanceTo latlng1 latlng2))"

subsection \<open>The handlers\<close>

text \<open>
  The \<^verbatim>\<open>click\<close> handler of \<^verbatim>\<open>MapClickHandler\<close> (lines 87-107). \<open>distfn\<close> is
  \<^verbatim>\<open>distanceTo\<close>, \<open>latlng\<close> is \<^verbatim>\<open>event.latlng\<close>. The branches are in the source's
  order, and \<^verbatim>\<open>distance <= radiusLimit\<close> is false of a distance that is NaN.
\<close>

definition MapClickHandler_click ::
  "(Coordinates \<Rightarrow> Coordinates \<Rightarrow> jsnumber) \<Rightarrow> Coordinates \<Rightarrow> AppState \<Rightarrow>
     effect list \<times> AppState" where
  "MapClickHandler_click distfn latlng s =
     (let distance = distfn latlng (center s) in
      if length (polygonCoordinates s) < 5 \<and> js_le distance (radiusLimit s) then
        ([], s\<lparr>polygonCoordinates := polygonCoordinates s @ [(lat latlng, lng latlng)]\<rparr>)
      else if length (polygonCoordinates s) \<ge> 5 then
        ([Toast PolygonOnlyFivePoints], s)
      else
        ([Toast PointOutsideBoundary], s))"

text \<open>
  \<^verbatim>\<open>isCenterInsidePolygon\<close> (lines 113-123): the early return for fewer than 3
  points, then the bounds of the polygon layer and their \<^verbatim>\<open>contains\<close>.
\<close>

definition isCenterInsidePolygon :: "AppState \<Rightarrow> error + bool" where
  "isCenterInsidePolygon s =
     (if length (polygonCoordinates s) < 3 then Inr False
      else LatLngBounds_contains (polygon_getBounds (polygonCoordinates s))
             \<lparr>lat = lat (center s), lng = lng (center s)\<rparr>)"

text \<open>
  \<^verbatim>\<open>handleSavePolygon\<close> (lines 126-162). It calls no setter, so the state it
  returns is the state it was given. The body of the \<^verbatim>\<open>try\<close> logs the boundary
  and shows the success toast; neither throws, so the \<^verbatim>\<open>catch\<close> has no branch
  here. An exception of \<^verbatim>\<open>isCenterInsidePolygon\<close> would leave the handler.
\<close>

definition handleSavePolygon :: "AppState \<Rightarrow> error + (effect list \<times> AppState)" where
  "handleSavePolygon s =
     (if length (polygonCoordinates s) \<noteq> 5 then Inr ([Toast SetPolygonWithFivePoints], s)
      else
        (case isCenterInsidePolygon s of
           Inl e \<Rightarrow> Inl e
         | Inr inside \<Rightarrow>
             if \<not> inside then Inr ([Toast StoreMustBeInsidePolygon], s)
             else
               (let boundary =
                      map (\<lambda>(lat, lng). \<lparr>latitude = lat, longitude = lng\<rparr>) (polygonCoordinates s)
                in Inr ([ConsoleLog boundary, Toast SuccessStoreSaved], s))))"

text \<open>
  \<^verbatim>\<open>handleUndoLastPoint\<close>: \<^verbatim>\<open>slice(0, -1)\<close> keeps the first \<open>length - 1\<close> elements,
  none of an empty array.
\<close>

definition handleUndoLastPoint :: "AppState \<Rightarrow> AppState" where
  "handleUndoLastPoint s =
     s\<lparr>polygonCoordinates :=
          take (length (polygonCoordinates s) - 1) (polygonCoordinates s)\<rparr>"

definition handleClearAllPoints :: "AppState \<Rightarrow> AppState" where
  "handleClearAllPoints s = s\<lparr>polygonCoordinates := []\<rparr>"

text \<open>
  \<^verbatim>\<open>handleCenterChange(key)(e)\<close>. The value of a number input is the empty
  string (\<open>None\<close>, which the handler turns into 0) or a valid number (\<open>Some v\<close>,
  which \<^verbatim>\<open>parseFloat\<close> reads as \<open>v\<close>).
\<close>

datatype center_key = Key_lat | Key_lng

definition inputNumber :: "real option \<Rightarrow> real" where
  "inputNumber v = (case v of None \<Rightarrow> 0 | Some x \<Rightarrow> x)"

definition handleCenterChange :: "center_key \<Rightarrow> real option \<Rightarrow> AppState \<Rightarrow> AppState" where
  "handleCenterChange key v s =
     (case key of
        Key_lat \<Rightarrow> s\<lparr>center := (center s)\<lparr>lat := inputNumber v\<rparr>\<rparr>
      | Key_lng \<Rightarrow> s\<lparr>center := (center s)\<lparr>lng := inputNumber v\<rparr>\<rparr>)"

text \<open>
  The \<^verbatim>\<open>onChange\<close> of the radius input (line 246), \<^verbatim>\<open>setRadiusLimit(Number(value))\<close>;
  \<^verbatim>\<open>Number\<close> of the empty string is 0. The one of the store name input (line 237),
  and the geolocation callback (lines 54-59), which sets the center.
\<close>

definition radius_onChange :: "real option \<Rightarrow> AppState \<Rightarrow> AppState" where
  "radius_onChange v s = s\<lparr>radiusLimit := inputNumber v\<rparr>"

definition storeName_onChange :: "string \<Rightarrow> AppState \<Rightarrow> AppState" where
  "storeName_onChange v s = s\<lparr>storeName := v\<rparr>"

definition getCurrentPosition_callback :: "Coordinates \<Rightarrow> AppState \<Rightarrow> AppState" where
  "getCurrentPosition_callback coords s = s\<lparr>center := coords\<rparr>"

subsection \<open>Sequences of user events\<close>

text \<open>
  What the user can do to the component, and the state after a sequence of such
  events. Saving leaves the state as it is, whatever its outcome.
\<close>

datatype ui_event =
    Click Coordinates
  | UndoLastPoint
  | ClearAllPoints
  | SavePolygon
  | CenterChange center_key "real option"
  | RadiusChange "real option"
  | StoreNameChange string
  | Geolocated Coordinates

fun step ::
  "(Coordinates \<Rightarrow> Coordinates \<Rightarrow> jsnumber) \<Rightarrow> AppState \<Rightarrow> ui_event \<Rightarrow> AppState" where
  "step distfn s (Click latlng) = snd (MapClickHandler_click distfn latlng s)"
| "step distfn s UndoLastPoint = handleUndoLastPoint s"
| "step distfn s ClearAllPoints = handleClearAllPoints s"
| "step distfn s SavePolygon =
     (case handleSavePolygon s of Inl e \<Rightarrow> s | Inr r \<Rightarrow> snd r)"
| "step distfn s (CenterChange key v) = handleCenterChange key v s"
| "step distfn s (RadiusChange v) = radius_onChange v s"
| "step distfn s (StoreNameChange v) = storeName_onChange v s"
| "step distfn s (Geolocated coords) = getCurrentPosition_callback coords s"

definition run ::
  "(Coordinates \<Rightarrow> Coordinates \<Rightarrow> jsnumber) \<Rightarrow> ui_event list \<Rightarrow> AppState \<Rightarrow> AppState" where
  "run distfn evs s = foldl (step distfn) s evs"

subsection \<open>The containment test the spec asks for\<close>

text \<open>
  Section 4.1 of the spec: a standard ray-casting test on the ring closed from the
  last vertex back to the first, false for fewer than 3 vertices. This definition
  follows the spec's words, to be compared with \<open>isCenterInsidePolygon\<close>. A point
  is \<open>(lat, lng)\<close>; the ray runs along the first coordinate, and an edge is
  crossed when its ends lie on different sides of the point's second coordinate
  and the crossing lies beyond the point.
\<close>

definition ring_edges :: "LatLngTuple list \<Rightarrow> (LatLngTuple \<times> LatLngTuple) list" where
  "ring_edges vs = zip vs (rotate1 vs)"

definition ray_crosses :: "LatLngTuple \<Rightarrow> LatLngTuple \<times> LatLngTuple \<Rightarrow> bool" where
  "ray_crosses p e =
     (case (p, e) of
        ((x, y), ((xi, yi), (xj, yj))) \<Rightarrow>
          ((yi > y) \<noteq> (yj > y)) \<and> x < (xj - xi) * (y - yi) / (yj - yi) + xi)"

definition pointInPolygon_spec :: "LatLngTuple \<Rightarrow> LatLngTuple list \<Rightarrow> bool" where
  "pointInPolygon_spec p vs =
     (if length vs < 3 then False
      else odd (length (filter (ray_crosses p) (ring_edges vs))))"

subsection \<open>Example sessions\<close>

text \<open>
  A pentagon with a notch: the vertex \<open>(2, 3)\<close> lies inside the square spanned
  by the other four, so the point \<open>(2, 3.5)\<close> is in the square and outside the
  pentagon. All five vertices are within 500 km of that point.
\<close>

definition notchSession :: AppState where
  "notchSession =
     \<lparr>storeName = ''Terrys Cafe London'', center = \<lparr>lat = 2, lng = 3.5\<rparr>,
      polygonCoordinates = [(0, 0), (4, 0), (4, 4), (2, 3), (0, 4)],
      radiusLimit = 500000\<rparr>"

text \<open>
  Two sessions with the same convex pentagon around both centers, with
  different store names and different centers.
\<close>

definition pentagon :: "LatLngTuple list" where
  "pentagon = [(0, 0), (4, 0), (5, 3), (2, 5), (-1, 3)]"

definition pentagonSessionA :: AppState where
  "pentagonSessionA =
     \<lparr>storeName = ''Store A'', center = \<lparr>lat = 2, lng = 2\<rparr>,
      polygonCoordinates = pentagon, radiusLimit = 500000\<rparr>"

definition pentagonSessionB :: AppState where
  "pentagonSessionB =
     \<lparr>storeName = ''Store B'', center = \<lparr>lat = 2, lng = 3\<rparr>,
      polygonCoordinates = pentagon, radiusLimit = 500000\<rparr>"

text \<open>
  A session whose one vertex was accepted while the center was at that vertex;
  the center was then moved to the other side of the globe.
\<close>

definition movedCenterEvents :: "ui_event list" where
  "movedCenterEvents =
     [CenterChange Key_lat (Some 0), CenterChange Key_lng (Some 180),
      Click \<lparr>lat = 0, lng = 180\<rparr>, CenterChange Key_lng (Some 0)]"

definition movedCenterSession :: AppState where
  "movedCenterSession =
     \<lparr>storeName = ''Terrys Cafe London'', center = \<lparr>lat = 0, lng = 0\<rparr>,
      polygonCoordinates = [(0, 180)], radiusLimit = 5000\<rparr>"


text \<open>A square whose last corner was clicked twice, and four corners only.\<close>

definition repeatedCornerSession :: AppState where
  "repeatedCornerSession =
     \<lparr>storeName = ''Terrys Cafe London'', center = \<lparr>lat = 2, lng = 2\<rparr>,
      polygonCoordinates = [(0, 0), (4, 0), (4, 4), (0, 4), (0, 4)],
      radiusLimit = 500000\<rparr>"

definition fourCornerSession :: AppState where
  "fourCornerSession =
     \<lparr>storeName = ''Terrys Cafe London'', center = \<lparr>lat = 2, lng = 2\<rparr>,
      polygonCoordinates = [(0, 0), (4, 0), (4, 4), (0, 4)],
      radiusLimit = 500000\<rparr>"

section \<open>Properties\<close>

subsection \<open>The bounds of a polygon\<close>

lemma LatLngBounds_extend_Some:
  "LatLngBounds_extend (Some (sw, ne)) p =
     Some (\<lparr>lat = min (lat p) (lat sw), lng = min (lng p) (lng sw)\<rparr>,
           \<lparr>lat = max (lat p) (lat ne), lng = max (lng p) (lng ne)\<rparr>)"
  by (simp add: LatLngBounds_extend_def)

lemma LatLngBounds_extend_None:
  "LatLngBounds_extend None p =
     Some (\<lparr>lat = lat p, lng = lng p\<rparr>, \<lparr>lat = lat p, lng = lng p\<rparr>)"
  by (simp add: LatLngBounds_extend_def)

lemma foldl_extend_Some:
  "\<exists>sw ne. foldl LatLngBounds_extend (Some b) ps = Some (sw, ne)"
proof (induction ps arbitrary: b)
  case Nil
  show ?case by (cases b) simp
next
  case (Cons q qs)
  obtain sw ne where "b = (sw, ne)" by (cases b)
  with Cons.IH show ?case by (simp add: LatLngBounds_extend_Some)
qed

lemma polygon_getBounds_Some:
  assumes "vs \<noteq> []"
  shows "\<exists>sw ne. polygon_getBounds vs = Some (sw, ne)"
proof -
  from assms obtain u us where "vs = u # us" by (cases vs) auto
  then show ?thesis
    using foldl_extend_Some by (simp add: polygon_getBounds_def LatLngBounds_extend_None)
qed

text \<open>The bounds only grow, and enclose every point they were extended by.\<close>

lemma foldl_extend_bounds:
  "foldl LatLngBounds_extend (Some (sw, ne)) ps = Some (sw', ne') \<Longrightarrow>
     lat sw' \<le> lat sw \<and> lat ne \<le> lat ne' \<and> lng sw' \<le> lng sw \<and> lng ne \<le> lng ne' \<and>
     (\<forall>p\<in>set ps. lat sw' \<le> lat p \<and> lat p \<le> lat ne' \<and> lng sw' \<le> lng p \<and> lng p \<le> lng ne')"
proof (induction ps arbitrary: sw ne)
  case Nil
  then show ?case by simp
next
  case (Cons q qs)
  let ?sw = "\<lparr>lat = min (lat q) (lat sw), lng = min (lng q) (lng sw)\<rparr>"
  let ?ne = "\<lparr>lat = max (lat q) (lat ne), lng = max (lng q) (lng ne)\<rparr>"
  from Cons.prems have "foldl LatLngBounds_extend (Some (?sw, ?ne)) qs = Some (sw', ne')"
    by (simp add: LatLngBounds_extend_Some)
  from Cons.IH [OF this] show ?case by auto
qed

lemma polygon_getBounds_encloses:
  assumes "polygon_getBounds vs = Some (sw, ne)" and "v \<in> set vs"
  shows "lat sw \<le> fst v \<and> fst v \<le> lat ne \<and> lng sw \<le> snd v \<and> snd v \<le> lng ne"
proof (cases vs)
  case Nil
  with assms show ?thesis by simp
next
  case (Cons u us)
  with assms
  have f: "foldl LatLngBounds_extend (Some (toLatLng u, toLatLng u)) (map toLatLng us) = Some (sw, ne)"
    by (simp add: polygon_getBounds_def LatLngBounds_extend_None toLatLng_def)
  from foldl_extend_bounds [OF f] assms(2) Cons show ?thesis
    by (auto simp: toLatLng_def)
qed

subsection \<open>Ray casting stays inside the bounds\<close>

text \<open>
  Around a closed ring, a property of the vertices changes an even number of
  times.
\<close>

lemma cyclic_changes_parity:
  fixes f :: "'a \<Rightarrow> bool"
  shows "odd (length (filter (\<lambda>(u, v). f u \<noteq> f v) (zip (a # xs) (xs @ [b])))) = (f a \<noteq> f b)"
proof (induction xs arbitrary: a)
  case Nil
  show ?case by simp
next
  case (Cons c cs)
  show ?case using Cons.IH [of c] by (cases "f a = f c") auto
qed

lemma ring_changes_even:
  fixes f :: "LatLngTuple \<Rightarrow> bool"
  shows "even (length (filter (\<lambda>(u, v). f u \<noteq> f v) (ring_edges vs)))"
proof (cases vs)
  case Nil
  then show ?thesis by (simp add: ring_edges_def)
next
  case (Cons a xs)
  have "even (length (filter (\<lambda>(u, v). f u \<noteq> f v) (zip (a # xs) (xs @ [a]))))"
    using cyclic_changes_parity [of f a xs a] by simp
  with Cons show ?thesis by (simp only: ring_edges_def rotate1.simps)
qed

lemma ring_edges_ends: "(u, v) \<in> set (ring_edges vs) \<Longrightarrow> u \<in> set vs \<and> v \<in> set vs"
  unfolding ring_edges_def
  by (auto dest: set_zip_leftD set_zip_rightD)

text \<open>
  Where an edge crosses the ray's line, the crossing lies between the edge's
  ends.
\<close>

lemma crossing_between:
  fixes x y xi yi xj yj :: real
  assumes "(yi > y) \<noteq> (yj > y)"
  shows "min xi xj \<le> (xj - xi) * (y - yi) / (yj - yi) + xi"
    and "(xj - xi) * (y - yi) / (yj - yi) + xi \<le> max xi xj"
    and "min yi yj \<le> y" and "y \<le> max yi yj"
proof -
  define r where "r = (y - yi) / (yj - yi)"
  from assms have r0: "0 \<le> r" unfolding r_def
    by (auto simp: divide_simps)
  from assms have r1: "r \<le> 1" unfolding r_def
    by (auto simp: divide_simps)
  have "(xj - xi) * (y - yi) / (yj - yi) = (xj - xi) * r"
    unfolding r_def by simp
  then have eq: "(xj - xi) * (y - yi) / (yj - yi) + xi = (1 - r) * xi + r * xj"
    by (simp add: algebra_simps)
  have "min xi xj = (1 - r) * min xi xj + r * min xi xj" by (simp add: algebra_simps)
  also have "\<dots> \<le> (1 - r) * xi + r * xj"
    using r0 r1 by (intro add_mono mult_left_mono) auto
  finally show "min xi xj \<le> (xj - xi) * (y - yi) / (yj - yi) + xi" using eq by simp
  have "(1 - r) * xi + r * xj \<le> (1 - r) * max xi xj + r * max xi xj"
    using r0 r1 by (intro add_mono mult_left_mono) auto
  also have "\<dots> = max xi xj" by (simp add: algebra_simps)
  finally show "(xj - xi) * (y - yi) / (yj - yi) + xi \<le> max xi xj" using eq by simp
  from assms show "min yi yj \<le> y" "y \<le> max yi yj" by auto
qed

lemma ray_crosses_inside:
  assumes cr: "ray_crosses (x, y) (u, v)"
    and b: "polygon_getBounds vs = Some (sw, ne)"
    and uv: "u \<in> set vs" "v \<in> set vs"
  shows "x \<le> lat ne \<and> lng sw \<le> y \<and> y \<le> lng ne"
proof -
  obtain xi yi xj yj where u: "u = (xi, yi)" and v: "v = (xj, yj)"
    by (cases u, cases v) auto
  from cr u v have st: "(yi > y) \<noteq> (yj > y)"
    and lt: "x < (xj - xi) * (y - yi) / (yj - yi) + xi"
    by (simp_all add: ray_crosses_def)
  from polygon_getBounds_encloses [OF b uv(1)] u
  have bu: "xi \<le> lat ne" "lng sw \<le> yi" "yi \<le> lng ne" by simp_all
  from polygon_getBounds_encloses [OF b uv(2)] v
  have bv: "xj \<le> lat ne" "lng sw \<le> yj" "yj \<le> lng ne" by simp_all
  from crossing_between(2) [OF st, where xi = xi and xj = xj] lt bu(1) bv(1)
  have "x \<le> lat ne" by linarith
  moreover from crossing_between(3) [OF st] bu(2) bv(2) have "lng sw \<le> y" by linarith
  moreover from crossing_between(4) [OF st] bu(3) bv(3) have "y \<le> lng ne" by linarith
  ultimately show ?thesis by simp
qed

text \<open>
  Left of the bounds the ray crosses every edge whose ends lie on different
  sides of its line.
\<close>

lemma ray_crosses_left_of_bounds:
  assumes b: "polygon_getBounds vs = Some (sw, ne)"
    and x: "x < lat sw"
    and e: "e \<in> set (ring_edges vs)"
  shows "ray_crosses (x, y) e = (case e of (u, v) \<Rightarrow> (snd u > y) \<noteq> (snd v > y))"
proof -
  obtain xi yi xj yj where ev: "e = ((xi, yi), (xj, yj))"
    by (cases e) auto
  from ring_edges_ends e ev have uv: "(xi, yi) \<in> set vs" "(xj, yj) \<in> set vs" by blast+
  from polygon_getBounds_encloses [OF b uv(1)] have "lat sw \<le> xi" by simp
  moreover from polygon_getBounds_encloses [OF b uv(2)] have "lat sw \<le> xj" by simp
  ultimately have m: "x < min xi xj" using x by simp
  show ?thesis
  proof (cases "(yi > y) \<noteq> (yj > y)")
    case True
    from crossing_between(1) [OF True, where xi = xi and xj = xj] m
    have "x < (xj - xi) * (y - yi) / (yj - yi) + xi" by linarith
    with True ev show ?thesis by (simp add: ray_crosses_def)
  next
    case False
    with ev show ?thesis by (simp add: ray_crosses_def)
  qed
qed

lemma pointInPolygon_spec_inside_bounds:
  assumes p: "pointInPolygon_spec (x, y) vs"
    and b: "polygon_getBounds vs = Some (sw, ne)"
  shows "lat sw \<le> x \<and> x \<le> lat ne \<and> lng sw \<le> y \<and> y \<le> lng ne"
proof -
  from p have od: "odd (length (filter (ray_crosses (x, y)) (ring_edges vs)))"
    by (simp add: pointInPolygon_spec_def split: if_splits)
  then have "filter (ray_crosses (x, y)) (ring_edges vs) \<noteq> []"
    by (auto simp del: filter_empty_conv)
  then obtain e where e: "e \<in> set (ring_edges vs)" and cr: "ray_crosses (x, y) e"
    by (auto simp: filter_empty_conv)
  obtain u v where uv: "e = (u, v)" by (cases e)
  from ring_edges_ends e uv have "u \<in> set vs" "v \<in> set vs" by blast+
  with cr uv b have r: "x \<le> lat ne \<and> lng sw \<le> y \<and> y \<le> lng ne"
    using ray_crosses_inside by blast
  have "lat sw \<le> x"
  proof (rule ccontr)
    assume "\<not> lat sw \<le> x"
    then have x: "x < lat sw" by simp
    have "filter (ray_crosses (x, y)) (ring_edges vs) =
          filter (\<lambda>(u, v). (snd u > y) \<noteq> (snd v > y)) (ring_edges vs)"
      by (rule filter_cong [OF refl]) (rule ray_crosses_left_of_bounds [OF b x])
    with ring_changes_even [of "\<lambda>u. snd u > y" vs] od show False by simp
  qed
  with r show ?thesis by simp
qed

text \<open>
  So the component's test accepts every center the ray-casting test accepts, and
  it never throws.
\<close>

lemma isCenterInsidePolygon_of_spec:
  assumes "pointInPolygon_spec (lat (center s), lng (center s)) (polygonCoordinates s)"
  shows "isCenterInsidePolygon s = Inr True"
proof -
  from assms have len: "\<not> length (polygonCoordinates s) < 3"
    by (simp add: pointInPolygon_spec_def split: if_splits)
  then have "polygonCoordinates s \<noteq> []" by auto
  then obtain sw ne where b: "polygon_getBounds (polygonCoordinates s) = Some (sw, ne)"
    using polygon_getBounds_Some by blast
  from pointInPolygon_spec_inside_bounds [OF assms b] len b show ?thesis
    by (simp add: isCenterInsidePolygon_def LatLngBounds_contains_def)
qed

lemma isCenterInsidePolygon_total: "\<exists>r. isCenterInsidePolygon s = Inr r"
proof (cases "polygonCoordinates s = []")
  case True
  then show ?thesis by (auto simp: isCenterInsidePolygon_def)
next
  case False
  then obtain sw ne where "polygon_getBounds (polygonCoordinates s) = Some (sw, ne)"
    using polygon_getBounds_Some by blast
  then show ?thesis
    by (auto simp: isCenterInsidePolygon_def LatLngBounds_contains_def)
qed

subsection \<open>The handlers, step by step\<close>

lemma handleSavePolygon_state: "handleSavePolygon s = Inr (effs, s') \<Longrightarrow> s' = s"
  by (auto simp: handleSavePolygon_def Let_def split: if_splits sum.splits)

lemma step_le5:
  "length (polygonCoordinates s) \<le> 5 \<Longrightarrow> length (polygonCoordinates (step distfn s ev)) \<le> 5"
  by (cases ev)
     (auto simp: MapClickHandler_click_def Let_def handleUndoLastPoint_def
        handleClearAllPoints_def handleSavePolygon_def handleCenterChange_def
        radius_onChange_def storeName_onChange_def getCurrentPosition_callback_def
        split: sum.splits center_key.splits)

lemma run_le5:
  "length (polygonCoordinates s) \<le> 5 \<Longrightarrow> length (polygonCoordinates (run distfn evs s)) \<le> 5"
  unfolding run_def
  by (induction evs arbitrary: s) (simp_all add: step_le5)

subsection \<open>The distance\<close>


lemma distanceTo_self: "distanceTo a a = 0"
  by (simp add: distanceTo_def atan2_def Let_def)

lemma distanceTo_antipodes:
  "distanceTo \<lparr>lat = 0, lng = 180\<rparr> \<lparr>lat = 0, lng = 0\<rparr> = 6371000 * pi"
  by (simp add: distanceTo_def atan2_def Let_def)
















text \<open>The distance as a JavaScript number, at the points the examples use.\<close>

lemma distanceTo_doubles_self: "distanceTo_doubles a a = Num 0"
  by (auto simp: distanceTo_doubles_def roundsAboveOne_def distanceTo_self)

lemma distanceTo_doubles_antipodes:
  "distanceTo_doubles \<lparr>lat = 0, lng = 180\<rparr> \<lparr>lat = 0, lng = 0\<rparr> = Num (6371000 * pi)"
  by (simp add: distanceTo_doubles_def roundsAboveOne_def distanceTo_antipodes)


section \<open>The claims\<close>

subsection \<open>C1: the containment test\<close>

text \<open>
  C1 asks that the test \<^verbatim>\<open>handleSavePolygon\<close> uses is true exactly for the points
  inside the ring, and never for a point that is outside the polygon and inside
  its bounding rectangle. The component's own comments and its toast say the same
  (the center must be inside the polygon), but \<open>isCenterInsidePolygon\<close> asks the
  polygon's bounds. In \<open>notchSession\<close> the center lies in the notch of the
  pentagon: the ray-casting test says outside, the component says inside and the
  save succeeds. (By \<open>isCenterInsidePolygon_of_spec\<close> the other direction holds:
  a center inside the ring is always accepted.)
\<close>

theorem isCenterInsidePolygon_accepts_notch:
  "isCenterInsidePolygon notchSession = Inr True \<and>
   \<not> pointInPolygon_spec (lat (center notchSession), lng (center notchSession))
        (polygonCoordinates notchSession) \<and>
   handleSavePolygon notchSession =
     Inr ([ConsoleLog
             [\<lparr>latitude = 0, longitude = 0\<rparr>, \<lparr>latitude = 4, longitude = 0\<rparr>,
              \<lparr>latitude = 4, longitude = 4\<rparr>, \<lparr>latitude = 2, longitude = 3\<rparr>,
              \<lparr>latitude = 0, longitude = 4\<rparr>],
           Toast SuccessStoreSaved], notchSession)"
proof -
  have b: "isCenterInsidePolygon notchSession = Inr True"
    by (simp add: isCenterInsidePolygon_def notchSession_def polygon_getBounds_def
        LatLngBounds_extend_def LatLngBounds_contains_def toLatLng_def)
  have r: "\<not> pointInPolygon_spec (lat (center notchSession), lng (center notchSession))
        (polygonCoordinates notchSession)"
    by (simp add: pointInPolygon_spec_def notchSession_def ring_edges_def ray_crosses_def)
  have s: "handleSavePolygon notchSession =
     Inr ([ConsoleLog
             [\<lparr>latitude = 0, longitude = 0\<rparr>, \<lparr>latitude = 4, longitude = 0\<rparr>,
              \<lparr>latitude = 4, longitude = 4\<rparr>, \<lparr>latitude = 2, longitude = 3\<rparr>,
              \<lparr>latitude = 0, longitude = 4\<rparr>],
           Toast SuccessStoreSaved], notchSession)"
    unfolding handleSavePolygon_def b by (simp add: notchSession_def)
  from b r s show ?thesis by simp
qed

subsection \<open>C2: the order of the rules of a click\<close>




subsection \<open>C3: never more than 5 points\<close>

text \<open>
  C3: start from any state with no points and let the user do anything, in any
  order: clicks, undo, clear, save, edits of the center, the radius and the name.
  After every step (every prefix \<open>take n evs\<close> of the events) the polygon has at
  most 5 points.
\<close>

theorem vertex_count_at_most_5:
  "length (polygonCoordinates (run distfn (take n evs) (s\<lparr>polygonCoordinates := []\<rparr>))) \<le> 5"
  by (rule run_le5) simp

subsection \<open>C4: what a successful save emits\<close>

text \<open>
  The spec's snapshot holds the center, the 5 vertices and the store name. What
  \<^verbatim>\<open>handleSavePolygon\<close> builds and logs is \<^verbatim>\<open>boundary\<close> alone: two sessions with
  the same pentagon around their centers, with different centers and different
  store names, emit the same thing.
\<close>

theorem save_emits_boundary_only:
  "handleSavePolygon pentagonSessionA =
     Inr ([ConsoleLog
             [\<lparr>latitude = 0, longitude = 0\<rparr>, \<lparr>latitude = 4, longitude = 0\<rparr>,
              \<lparr>latitude = 5, longitude = 3\<rparr>, \<lparr>latitude = 2, longitude = 5\<rparr>,
              \<lparr>latitude = -1, longitude = 3\<rparr>],
           Toast SuccessStoreSaved], pentagonSessionA) \<and>
   handleSavePolygon pentagonSessionB =
     Inr ([ConsoleLog
             [\<lparr>latitude = 0, longitude = 0\<rparr>, \<lparr>latitude = 4, longitude = 0\<rparr>,
              \<lparr>latitude = 5, longitude = 3\<rparr>, \<lparr>latitude = 2, longitude = 5\<rparr>,
              \<lparr>latitude = -1, longitude = 3\<rparr>],
           Toast SuccessStoreSaved], pentagonSessionB) \<and>
   storeName pentagonSessionA \<noteq> storeName pentagonSessionB \<and>
   center pentagonSessionA \<noteq> center pentagonSessionB \<and>
   pointInPolygon_spec (2, 2) pentagon \<and> pointInPolygon_spec (2, 3) pentagon"
proof -
  have a: "isCenterInsidePolygon pentagonSessionA = Inr True"
    by (simp add: isCenterInsidePolygon_def pentagonSessionA_def pentagon_def
        polygon_getBounds_def LatLngBounds_extend_def LatLngBounds_contains_def toLatLng_def)
  have b: "isCenterInsidePolygon pentagonSessionB = Inr True"
    by (simp add: isCenterInsidePolygon_def pentagonSessionB_def pentagon_def
        polygon_getBounds_def LatLngBounds_extend_def LatLngBounds_contains_def toLatLng_def)
  have sa: "handleSavePolygon pentagonSessionA =
     Inr ([ConsoleLog
             [\<lparr>latitude = 0, longitude = 0\<rparr>, \<lparr>latitude = 4, longitude = 0\<rparr>,
              \<lparr>latitude = 5, longitude = 3\<rparr>, \<lparr>latitude = 2, longitude = 5\<rparr>,
              \<lparr>latitude = -1, longitude = 3\<rparr>],
           Toast SuccessStoreSaved], pentagonSessionA)"
    unfolding handleSavePolygon_def a by (simp add: pentagonSessionA_def pentagon_def)
  have sb: "handleSavePolygon pentagonSessionB =
     Inr ([ConsoleLog
             [\<lparr>latitude = 0, longitude = 0\<rparr>, \<lparr>latitude = 4, longitude = 0\<rparr>,
              \<lparr>latitude = 5, longitude = 3\<rparr>, \<lparr>latitude = 2, longitude = 5\<rparr>,
              \<lparr>latitude = -1, longitude = 3\<rparr>],
           Toast SuccessStoreSaved], pentagonSessionB)"
    unfolding handleSavePolygon_def b by (simp add: pentagonSessionB_def pentagon_def)
  have n: "storeName pentagonSessionA \<noteq> storeName pentagonSessionB"
    by (simp add: pentagonSessionA_def pentagonSessionB_def)
  have c: "center pentagonSessionA \<noteq> center pentagonSessionB"
    by (simp add: pentagonSessionA_def pentagonSessionB_def)
  have pa: "pointInPolygon_spec (2, 2) pentagon"
    by (simp add: pointInPolygon_spec_def pentagon_def ring_edges_def ray_crosses_def)
  have pb: "pointInPolygon_spec (2, 3) pentagon"
    by (simp add: pointInPolygon_spec_def pentagon_def ring_edges_def ray_crosses_def)
  from sa sb n c pa pb show ?thesis by simp
qed

text \<open>
  C4, amended: for every session with 5 points whose center is inside the ring
  of its points, \<^verbatim>\<open>handleSavePolygon\<close> succeeds; it emits exactly the 5 points in
  insertion order, each as a latitude and a longitude, and nothing else (neither
  the center nor the store name), then the success toast; and it leaves the
  session (center, radius limit, points and store name) as it was.
\<close>

theorem save_success_boundary:
  assumes "length (polygonCoordinates s) = 5"
    and "pointInPolygon_spec (lat (center s), lng (center s)) (polygonCoordinates s)"
  shows "handleSavePolygon s =
     Inr ([ConsoleLog (map (\<lambda>(a, b). \<lparr>latitude = a, longitude = b\<rparr>) (polygonCoordinates s)),
           Toast SuccessStoreSaved], s)"
  using assms(1) isCenterInsidePolygon_of_spec [OF assms(2)]
  by (simp add: handleSavePolygon_def)

theorem save_success_boundary_witness:
  "length (polygonCoordinates pentagonSessionA) = 5 \<and>
   pointInPolygon_spec (lat (center pentagonSessionA), lng (center pentagonSessionA))
     (polygonCoordinates pentagonSessionA) \<and>
   handleSavePolygon pentagonSessionA =
     Inr ([ConsoleLog
             [\<lparr>latitude = 0, longitude = 0\<rparr>, \<lparr>latitude = 4, longitude = 0\<rparr>,
              \<lparr>latitude = 5, longitude = 3\<rparr>, \<lparr>latitude = 2, longitude = 5\<rparr>,
              \<lparr>latitude = -1, longitude = 3\<rparr>],
           Toast SuccessStoreSaved], pentagonSessionA)"
proof -
  have l: "length (polygonCoordinates pentagonSessionA) = 5"
    by (simp add: pentagonSessionA_def pentagon_def)
  have p: "pointInPolygon_spec (lat (center pentagonSessionA), lng (center pentagonSessionA))
     (polygonCoordinates pentagonSessionA)"
    by (simp add: pointInPolygon_spec_def pentagonSessionA_def pentagon_def ring_edges_def
        ray_crosses_def)
  have m: "map (\<lambda>(a, b). \<lparr>latitude = a, longitude = b\<rparr>) (polygonCoordinates pentagonSessionA) =
      [\<lparr>latitude = 0, longitude = 0\<rparr>, \<lparr>latitude = 4, longitude = 0\<rparr>,
              \<lparr>latitude = 5, longitude = 3\<rparr>, \<lparr>latitude = 2, longitude = 5\<rparr>,
              \<lparr>latitude = -1, longitude = 3\<rparr>]"
    by (simp add: pentagonSessionA_def pentagon_def)
  from save_success_boundary [OF l p] l p m show ?thesis by simp
qed

subsection \<open>C5: an incomplete boundary is refused first\<close>

text \<open>
  C5: for every session whose number of points is not 5, \<^verbatim>\<open>handleSavePolygon\<close>
  shows the toast asking for 5 points and does nothing else, whatever the
  containment test would say; and for every session, saving right after
  \<^verbatim>\<open>handleClearAllPoints\<close> gives that toast.
\<close>

theorem save_incomplete:
  "(length (polygonCoordinates s) \<noteq> 5 \<longrightarrow>
      handleSavePolygon s = Inr ([Toast SetPolygonWithFivePoints], s)) \<and>
   handleSavePolygon (handleClearAllPoints s) =
      Inr ([Toast SetPolygonWithFivePoints], handleClearAllPoints s)"
  by (simp add: handleSavePolygon_def handleClearAllPoints_def)

text \<open>
  With four corners around the center the containment test is passed, and the
  save is refused as incomplete all the same.
\<close>

theorem save_incomplete_witness:
  "length (polygonCoordinates fourCornerSession) \<noteq> 5 \<and>
   isCenterInsidePolygon fourCornerSession = Inr True \<and>
   handleSavePolygon fourCornerSession = Inr ([Toast SetPolygonWithFivePoints], fourCornerSession) \<and>
   handleSavePolygon (handleClearAllPoints pentagonSessionA) =
      Inr ([Toast SetPolygonWithFivePoints], handleClearAllPoints pentagonSessionA)"
proof -
  have l: "length (polygonCoordinates fourCornerSession) \<noteq> 5"
    by (simp add: fourCornerSession_def)
  have i: "isCenterInsidePolygon fourCornerSession = Inr True"
    by (simp add: isCenterInsidePolygon_def fourCornerSession_def polygon_getBounds_def
        LatLngBounds_extend_def LatLngBounds_contains_def toLatLng_def)
  from save_incomplete [of fourCornerSession] save_incomplete [of pentagonSessionA] l i
  show ?thesis by simp
qed

subsection \<open>C6: undo, then the same point again\<close>

text \<open>
  The round trip fails when the last point is no longer within the radius limit
  of the center. \<open>movedCenterSession\<close> is reached by \<open>movedCenterEvents\<close>: its
  point was accepted while the center was at it, and the center was moved
  afterwards. Undo removes the point; clicking it again is refused, center and
  radius limit untouched in between, and the points stay empty.
\<close>

theorem undo_readd_rejected_after_center_moved:
  "run distanceTo_doubles movedCenterEvents initialState = movedCenterSession \<and>
   polygonCoordinates movedCenterSession = [(0, 180)] \<and>
   MapClickHandler_click distanceTo_doubles \<lparr>lat = 0, lng = 180\<rparr>
       (handleUndoLastPoint movedCenterSession) =
     ([Toast PointOutsideBoundary], movedCenterSession\<lparr>polygonCoordinates := []\<rparr>) \<and>
   polygonCoordinates
     (snd (MapClickHandler_click distanceTo_doubles \<lparr>lat = 0, lng = 180\<rparr>
        (handleUndoLastPoint movedCenterSession))) \<noteq> polygonCoordinates movedCenterSession"
proof -
  have r: "run distanceTo_doubles movedCenterEvents initialState = movedCenterSession"
    by (simp add: run_def movedCenterEvents_def initialState_def movedCenterSession_def
        handleCenterChange_def inputNumber_def defaultCoordinates_def
        MapClickHandler_click_def distanceTo_doubles_self js_le_def)
  have u: "handleUndoLastPoint movedCenterSession = movedCenterSession\<lparr>polygonCoordinates := []\<rparr>"
    by (simp add: handleUndoLastPoint_def movedCenterSession_def)
  have c: "MapClickHandler_click distanceTo_doubles \<lparr>lat = 0, lng = 180\<rparr>
        (movedCenterSession\<lparr>polygonCoordinates := []\<rparr>) =
     ([Toast PointOutsideBoundary], movedCenterSession\<lparr>polygonCoordinates := []\<rparr>)"
    using pi_ge_two
    by (simp add: MapClickHandler_click_def movedCenterSession_def distanceTo_doubles_antipodes
        js_le_def)
  from r u c show ?thesis by (simp add: movedCenterSession_def)
qed

text \<open>
  C6, amended: for every session with at least one and at most 5 points, whose
  last point \<open>p\<close> is within the radius limit of the current center:
  \<^verbatim>\<open>handleUndoLastPoint\<close> followed by a click on \<open>p\<close> is accepted and gives back
  the session exactly as it was, for every distance function.
\<close>

theorem undo_then_readd_restores:
  assumes "polygonCoordinates s \<noteq> []"
    and "last (polygonCoordinates s) = p"
    and "length (polygonCoordinates s) \<le> 5"
    and "js_le (distfn \<lparr>lat = fst p, lng = snd p\<rparr> (center s)) (radiusLimit s)"
  shows "MapClickHandler_click distfn \<lparr>lat = fst p, lng = snd p\<rparr> (handleUndoLastPoint s) = ([], s)"
proof -
  have "take (length (polygonCoordinates s) - 1) (polygonCoordinates s) =
        butlast (polygonCoordinates s)"
    by (rule butlast_conv_take [symmetric])
  with assms(1,2)
  have "take (length (polygonCoordinates s) - 1) (polygonCoordinates s) @ [p] = polygonCoordinates s"
    using append_butlast_last_id [of "polygonCoordinates s"] by simp
  moreover from assms(1,3) have "length (polygonCoordinates s) - 1 < 5"
    by (cases "polygonCoordinates s") auto
  ultimately show ?thesis
    using assms(4) by (simp add: MapClickHandler_click_def handleUndoLastPoint_def)
qed

theorem undo_then_readd_restores_witness:
  "polygonCoordinates (initialState\<lparr>polygonCoordinates := [(51.4998819, -0.0992492)]\<rparr>) \<noteq> [] \<and>
   last (polygonCoordinates (initialState\<lparr>polygonCoordinates := [(51.4998819, -0.0992492)]\<rparr>)) =
     (51.4998819, -0.0992492) \<and>
   length (polygonCoordinates (initialState\<lparr>polygonCoordinates := [(51.4998819, -0.0992492)]\<rparr>)) \<le> 5 \<and>
   js_le (distanceTo_doubles defaultCoordinates (center initialState)) (radiusLimit initialState) \<and>
   MapClickHandler_click distanceTo_doubles defaultCoordinates
     (handleUndoLastPoint (initialState\<lparr>polygonCoordinates := [(51.4998819, -0.0992492)]\<rparr>)) =
     ([], initialState\<lparr>polygonCoordinates := [(51.4998819, -0.0992492)]\<rparr>)"
proof -
  have d: "js_le (distanceTo_doubles defaultCoordinates (center initialState)) (radiusLimit initialState)"
    by (simp add: initialState_def distanceTo_doubles_self js_le_def)
  from undo_then_readd_restores
    [of "initialState\<lparr>polygonCoordinates := [(51.4998819, -0.0992492)]\<rparr>"
        "(51.4998819, -0.0992492)" distanceTo_doubles] d
  show ?thesis by (simp add: defaultCoordinates_def)
qed

subsection \<open>C7: editing the center or the radius keeps the points\<close>

text \<open>
  C7: for every state, \<^verbatim>\<open>handleCenterChange\<close> (and the geolocation callback)
  changes the center and nothing else, and of the center only the coordinate of
  its key; the radius input changes the radius limit and nothing else. The points
  are the same afterwards, wherever they lie.
\<close>

theorem center_radius_change_frame:
  "handleCenterChange key v s = s\<lparr>center := center (handleCenterChange key v s)\<rparr> \<and>
   center (handleCenterChange Key_lat v s) = (center s)\<lparr>lat := inputNumber v\<rparr> \<and>
   center (handleCenterChange Key_lng v s) = (center s)\<lparr>lng := inputNumber v\<rparr> \<and>
   polygonCoordinates (handleCenterChange key v s) = polygonCoordinates s \<and>
   getCurrentPosition_callback c s = s\<lparr>center := c\<rparr> \<and>
   polygonCoordinates (getCurrentPosition_callback c s) = polygonCoordinates s \<and>
   radius_onChange v s = s\<lparr>radiusLimit := inputNumber v\<rparr> \<and>
   polygonCoordinates (radius_onChange v s) = polygonCoordinates s"
  by (cases key)
     (simp_all add: handleCenterChange_def radius_onChange_def getCurrentPosition_callback_def)

subsection \<open>C8: fewer than 3 points\<close>

text \<open>
  C8: for every state with fewer than 3 points, \<open>isCenterInsidePolygon\<close> returns
  false: a value, not an exception.
\<close>

theorem fewer_than_3_not_inside:
  "length (polygonCoordinates s) < 3 \<Longrightarrow> isCenterInsidePolygon s = Inr False"
  by (simp add: isCenterInsidePolygon_def)

theorem fewer_than_3_not_inside_witness:
  "length (polygonCoordinates (fourCornerSession\<lparr>polygonCoordinates := [(0, 0), (4, 4)]\<rparr>)) < 3 \<and>
   isCenterInsidePolygon (fourCornerSession\<lparr>polygonCoordinates := [(0, 0), (4, 4)]\<rparr>) = Inr False"
  using fewer_than_3_not_inside [of "fourCornerSession\<lparr>polygonCoordinates := [(0, 0), (4, 4)]\<rparr>"]
  by simp

subsection \<open>C9: the distance\<close>




subsection \<open>C10: repeated points are saved\<close>

text \<open>
  C10: nothing checks that the points are distinct. Five clicks on the store's
  own location are all accepted, and the save of these five equal points
  succeeds. So does the save of a square whose last corner occurs twice, with
  the center inside the ring.
\<close>

theorem save_accepts_repeated_points:
  "run distanceTo_doubles (replicate 5 (Click defaultCoordinates)) initialState =
     initialState\<lparr>polygonCoordinates := replicate 5 (51.4998819, -0.0992492)\<rparr> \<and>
   handleSavePolygon (initialState\<lparr>polygonCoordinates := replicate 5 (51.4998819, -0.0992492)\<rparr>) =
     Inr ([ConsoleLog (replicate 5 \<lparr>latitude = 51.4998819, longitude = -0.0992492\<rparr>),
           Toast SuccessStoreSaved],
          initialState\<lparr>polygonCoordinates := replicate 5 (51.4998819, -0.0992492)\<rparr>) \<and>
   \<not> distinct (polygonCoordinates repeatedCornerSession) \<and>
   length (polygonCoordinates repeatedCornerSession) = 5 \<and>
   pointInPolygon_spec (lat (center repeatedCornerSession), lng (center repeatedCornerSession))
     (polygonCoordinates repeatedCornerSession) \<and>
   handleSavePolygon repeatedCornerSession =
     Inr ([ConsoleLog
             [\<lparr>latitude = 0, longitude = 0\<rparr>, \<lparr>latitude = 4, longitude = 0\<rparr>,
              \<lparr>latitude = 4, longitude = 4\<rparr>, \<lparr>latitude = 0, longitude = 4\<rparr>,
              \<lparr>latitude = 0, longitude = 4\<rparr>],
           Toast SuccessStoreSaved], repeatedCornerSession)"
proof -
  have r: "run distanceTo_doubles (replicate 5 (Click defaultCoordinates)) initialState =
     initialState\<lparr>polygonCoordinates := replicate 5 (51.4998819, -0.0992492)\<rparr>"
    by (simp add: run_def numeral_eq_Suc initialState_def MapClickHandler_click_def
        distanceTo_doubles_self js_le_def defaultCoordinates_def)
  have i: "isCenterInsidePolygon
       (initialState\<lparr>polygonCoordinates := replicate 5 (51.4998819, -0.0992492)\<rparr>) = Inr True"
    by (simp add: isCenterInsidePolygon_def initialState_def defaultCoordinates_def
        numeral_eq_Suc polygon_getBounds_def LatLngBounds_extend_def LatLngBounds_contains_def
        toLatLng_def)
  have s: "handleSavePolygon (initialState\<lparr>polygonCoordinates := replicate 5 (51.4998819, -0.0992492)\<rparr>) =
     Inr ([ConsoleLog (replicate 5 \<lparr>latitude = 51.4998819, longitude = -0.0992492\<rparr>),
           Toast SuccessStoreSaved],
          initialState\<lparr>polygonCoordinates := replicate 5 (51.4998819, -0.0992492)\<rparr>)"
    unfolding handleSavePolygon_def i by simp
  have d: "\<not> distinct (polygonCoordinates repeatedCornerSession)"
    by (simp add: repeatedCornerSession_def)
  have l: "length (polygonCoordinates repeatedCornerSession) = 5"
    by (simp add: repeatedCornerSession_def)
  have p: "pointInPolygon_spec (lat (center repeatedCornerSession), lng (center repeatedCornerSession))
     (polygonCoordinates repeatedCornerSession)"
    by (simp add: pointInPolygon_spec_def repeatedCornerSession_def ring_edges_def ray_crosses_def)
  have j: "isCenterInsidePolygon repeatedCornerSession = Inr True"
    by (simp add: isCenterInsidePolygon_def repeatedCornerSession_def polygon_getBounds_def
        LatLngBounds_extend_def LatLngBounds_contains_def toLatLng_def)
  have t: "handleSavePolygon repeatedCornerSession =
     Inr ([ConsoleLog
             [\<lparr>latitude = 0, longitude = 0\<rparr>, \<lparr>latitude = 4, longitude = 0\<rparr>,
              \<lparr>latitude = 4, longitude = 4\<rparr>, \<lparr>latitude = 0, longitude = 4\<rparr>,
              \<lparr>latitude = 0, longitude = 4\<rparr>],
           Toast SuccessStoreSaved], repeatedCornerSession)"
    unfolding handleSavePolygon_def j by (simp add: repeatedCornerSession_def)
  from r s d l p t show ?thesis by simp
qed

end
